theory Spec2Isabelle
  imports Main "HOL-Library.Multiset" "HOL-Library.Char_ord" "HOL-Library.List_Lexorder"
begin

section \<open>Strings, files and errors\<close>

text \<open>
  The module \<^verbatim>\<open>further_study/cohort_data2.py\<close> reads a text file of lines
  \<^verbatim>\<open>first|last|house|adviser|cohort\<close> and answers queries about it.

  A Python \<^verbatim>\<open>str\<close> is modelled as a \<open>string\<close>; one \<open>char\<close> stands for one character of
  the decoded text, so the model covers text whose code points are below 256.  Comparison of
  strings (\<^verbatim>\<open>sorted\<close>) is the lexicographic order on code points, which is the order of
  \<open>HOL-Library.List_Lexorder\<close> over \<open>HOL-Library.Char_ord\<close>.

  The exceptions the module can raise are values of \<open>error\<close>; a function that may raise
  returns \<open>error + 'a\<close> with \<open>Inl\<close> for the exception.
\<close>

datatype error = FileNotFoundError | ValueError | NameError

text \<open>
  The file system maps a path to the lines that iterating over the opened file yields (each
  with its line terminator), or to \<open>None\<close> when \<^verbatim>\<open>open\<close> fails.
\<close>

type_synonym filesystem = "string \<Rightarrow> string list option"

text \<open>A tuple of strings of any length: a split line, or a row returned by \<^verbatim>\<open>all_data\<close>.\<close>

type_synonym row = "string list"

text \<open>\<^verbatim>\<open>str.isspace\<close> on one character, for the code points below 256.\<close>

definition isspace :: "char \<Rightarrow> bool" where
  "isspace c \<longleftrightarrow> (of_char c :: nat) \<in> set [9, 10, 11, 12, 13, 28, 29, 30, 31, 32, 133, 160]"

text \<open>\<^verbatim>\<open>line.rstrip()\<close>: drop the whitespace characters at the end.\<close>

definition rstrip :: "string \<Rightarrow> string" where
  "rstrip s = rev (dropWhile isspace (rev s))"

text \<open>\<^verbatim>\<open>s.split(sep)\<close> for a one-character separator: always at least one field.\<close>

fun str_split :: "char \<Rightarrow> string \<Rightarrow> string list" where
  "str_split sep [] = [[]]"
| "str_split sep (c # cs) =
     (if c = sep then [] # str_split sep cs
      else (case str_split sep cs of
              [] \<Rightarrow> [[c]]
            | w # ws \<Rightarrow> (c # w) # ws))"

text \<open>
  A comprehension that unpacks every element of a list: the elements are unpacked in order and
  the first one that does not fit the target raises.
\<close>

fun unpack_each :: "('a \<Rightarrow> error + 'b) \<Rightarrow> 'a list \<Rightarrow> error + 'b list" where
  "unpack_each f [] = Inr []"
| "unpack_each f (x # xs) =
     (case f x of
        Inl e \<Rightarrow> Inl e
      | Inr y \<Rightarrow> (case unpack_each f xs of Inl e \<Rightarrow> Inl e | Inr ys \<Rightarrow> Inr (y # ys)))"

text \<open>The target \<^verbatim>\<open>a, b, *rest\<close>: at least two values.\<close>

fun unpack2_rest :: "row \<Rightarrow> error + (string \<times> string \<times> string list)" where
  "unpack2_rest (a # b # rest) = Inr (a, b, rest)"
| "unpack2_rest _ = Inl ValueError"

text \<open>The target \<^verbatim>\<open>a, b, c, d\<close>: exactly four values.\<close>

fun unpack4 :: "row \<Rightarrow> error + (string \<times> string \<times> string \<times> string)" where
  "unpack4 [a, b, c, d] = Inr (a, b, c, d)"
| "unpack4 _ = Inl ValueError"

section \<open>The loader\<close>

text \<open>
  \<^verbatim>\<open>data = [tuple(line.rstrip().split("|")) for line in cohort_data]\<close>
\<close>

definition split_lines :: "string list \<Rightarrow> row list" where
  "split_lines lines = map (\<lambda>line. str_split (CHR ''|'') (rstrip line)) lines"

text \<open>
  \<^verbatim>\<open>(f"{first} {last}", *rest)\<close> for \<^verbatim>\<open>first, last, *rest\<close> out of one element of
  \<^verbatim>\<open>data\<close> (the source's \<^verbatim>\<open>last\<close> is \<open>lastname\<close> here, \<open>last\<close> being a list function).
\<close>

definition merge_name :: "row \<Rightarrow> error + row" where
  "merge_name r =
     (case unpack2_rest r of
        Inl e \<Rightarrow> Inl e
      | Inr (first, lastname, rest) \<Rightarrow> Inr ((first @ '' '' @ lastname) # rest))"

definition all_data :: "filesystem \<Rightarrow> string \<Rightarrow> error + row list" where
  "all_data fs filename =
     (case fs filename of
        None \<Rightarrow> Inl FileNotFoundError
      | Some cohort_data \<Rightarrow> unpack_each merge_name (split_lines cohort_data))"

section \<open>The queries\<close>

subsection \<open>\<^verbatim>\<open>all_houses\<close>\<close>

text \<open>
  \<^verbatim>\<open>{house for _, house, *_ in all_data(filename) if house}\<close>
\<close>

definition all_houses :: "filesystem \<Rightarrow> string \<Rightarrow> error + string set" where
  "all_houses fs filename =
     (case all_data fs filename of
        Inl e \<Rightarrow> Inl e
      | Inr rows \<Rightarrow>
          (case unpack_each unpack2_rest rows of
             Inl e \<Rightarrow> Inl e
           | Inr ts \<Rightarrow> Inr (set (map (\<lambda>(_, house, _). house)
                                  (filter (\<lambda>(_, house, _). house \<noteq> []) ts)))))"

subsection \<open>\<^verbatim>\<open>students_by_cohort\<close>\<close>

text \<open>
  \<^verbatim>\<open>student_data\<close> keeps the name and the cohort of the rows whose cohort is not in
  \<^verbatim>\<open>("I", "G")\<close>; the result is \<^verbatim>\<open>sorted\<close> over all of them when \<^verbatim>\<open>cohort == "All"\<close>, and over
  those with \<^verbatim>\<open>cohort_name == cohort\<close> otherwise.
\<close>

definition student_data :: "filesystem \<Rightarrow> string \<Rightarrow> error + (string \<times> string) list" where
  "student_data fs filename =
     (case all_data fs filename of
        Inl e \<Rightarrow> Inl e
      | Inr rows \<Rightarrow>
          (case unpack_each unpack4 rows of
             Inl e \<Rightarrow> Inl e
           | Inr ts \<Rightarrow> Inr (map (\<lambda>(fullname, _, _, cohort_name). (fullname, cohort_name))
                             (filter (\<lambda>(_, _, _, cohort_name). cohort_name \<notin> set [''I'', ''G''])
                                ts))))"

definition students_by_cohort :: "filesystem \<Rightarrow> string \<Rightarrow> string \<Rightarrow> error + string list" where
  "students_by_cohort fs filename cohort =
     (case student_data fs filename of
        Inl e \<Rightarrow> Inl e
      | Inr sd \<Rightarrow>
          if cohort = ''All'' then Inr (sort (map (\<lambda>(fullname, _). fullname) sd))
          else Inr (sort (map (\<lambda>(fullname, _). fullname)
                            (filter (\<lambda>(_, cohort_name). cohort_name = cohort) sd))))"

text \<open>The call with the keyword argument left out: the default \<^verbatim>\<open>cohort="All"\<close> is passed.\<close>

definition students_by_cohort_default :: "filesystem \<Rightarrow> string \<Rightarrow> error + string list" where
  "students_by_cohort_default fs filename = students_by_cohort fs filename ''All''"

subsection \<open>\<^verbatim>\<open>all_names_by_house\<close>\<close>

record rosters =
  dumbledores_army :: "string list"
  gryffindor :: "string list"
  hufflepuff :: "string list"
  ravenclaw :: "string list"
  slytherin :: "string list"
  ghosts :: "string list"
  instructors :: "string list"

definition no_rosters :: rosters where
  "no_rosters = \<lparr>dumbledores_army = [], gryffindor = [], hufflepuff = [], ravenclaw = [],
     slytherin = [], ghosts = [], instructors = []\<rparr>"

text \<open>The first \<^verbatim>\<open>if\<close> of the loop body: \<^verbatim>\<open>if not house\<close>, then ghost or instructor.\<close>

definition add_special :: "string \<Rightarrow> string \<Rightarrow> string \<Rightarrow> rosters \<Rightarrow> rosters" where
  "add_special fullname house cohort_name st =
     (if house = [] then
        (if cohort_name = ''G'' then st\<lparr>ghosts := ghosts st @ [fullname]\<rparr>
         else if cohort_name = ''I'' then st\<lparr>instructors := instructors st @ [fullname]\<rparr>
         else st)
      else st)"

text \<open>The second \<^verbatim>\<open>if\<close>/\<^verbatim>\<open>elif\<close> chain of the loop body: the five houses.\<close>

definition add_house :: "string \<Rightarrow> string \<Rightarrow> rosters \<Rightarrow> rosters" where
  "add_house fullname house st =
     (if house = ''Dumbledore's Army'' then st\<lparr>dumbledores_army := dumbledores_army st @ [fullname]\<rparr>
      else if house = ''Gryffindor'' then st\<lparr>gryffindor := gryffindor st @ [fullname]\<rparr>
      else if house = ''Hufflepuff'' then st\<lparr>hufflepuff := hufflepuff st @ [fullname]\<rparr>
      else if house = ''Ravenclaw'' then st\<lparr>ravenclaw := ravenclaw st @ [fullname]\<rparr>
      else if house = ''Slytherin'' then st\<lparr>slytherin := slytherin st @ [fullname]\<rparr>
      else st)"

fun by_house_loop :: "rosters \<Rightarrow> row list \<Rightarrow> error + rosters" where
  "by_house_loop st [] = Inr st"
| "by_house_loop st (r # rs) =
     (case unpack4 r of
        Inl e \<Rightarrow> Inl e
      | Inr (fullname, house, _, cohort_name) \<Rightarrow>
          by_house_loop (add_house fullname house (add_special fullname house cohort_name st)) rs)"

definition all_names_by_house :: "filesystem \<Rightarrow> string \<Rightarrow> error + string list list" where
  "all_names_by_house fs filename =
     (case all_data fs filename of
        Inl e \<Rightarrow> Inl e
      | Inr rows \<Rightarrow>
          (case by_house_loop no_rosters rows of
             Inl e \<Rightarrow> Inl e
           | Inr st \<Rightarrow> Inr [sort (dumbledores_army st), sort (gryffindor st),
                           sort (hufflepuff st), sort (ravenclaw st), sort (slytherin st),
                           sort (ghosts st), sort (instructors st)]))"

subsection \<open>\<^verbatim>\<open>get_cohort_for\<close> and \<^verbatim>\<open>get_house_for\<close>\<close>

text \<open>
  Both loops unpack one row at a time and return at the first match, so a row after the match
  is never unpacked; falling off the end of the loop returns \<^verbatim>\<open>None\<close>.
\<close>

fun cohort_loop :: "string \<Rightarrow> row list \<Rightarrow> error + string option" where
  "cohort_loop name [] = Inr None"
| "cohort_loop name (r # rs) =
     (case unpack4 r of
        Inl e \<Rightarrow> Inl e
      | Inr (full_name, _, _, cohort_name) \<Rightarrow>
          if full_name = name then Inr (Some cohort_name) else cohort_loop name rs)"

definition get_cohort_for :: "filesystem \<Rightarrow> string \<Rightarrow> string \<Rightarrow> error + string option" where
  "get_cohort_for fs filename name =
     (case all_data fs filename of Inl e \<Rightarrow> Inl e | Inr rows \<Rightarrow> cohort_loop name rows)"

fun house_loop :: "string \<Rightarrow> row list \<Rightarrow> error + string option" where
  "house_loop name [] = Inr None"
| "house_loop name (r # rs) =
     (case unpack2_rest r of
        Inl e \<Rightarrow> Inl e
      | Inr (fullname, house, _) \<Rightarrow>
          if fullname = name then Inr (Some house) else house_loop name rs)"

definition get_house_for :: "filesystem \<Rightarrow> string \<Rightarrow> string \<Rightarrow> error + string option" where
  "get_house_for fs filename name =
     (case all_data fs filename of Inl e \<Rightarrow> Inl e | Inr rows \<Rightarrow> house_loop name rows)"

subsection \<open>\<^verbatim>\<open>get_housemates_for\<close>\<close>

text \<open>
  The targets are \<^verbatim>\<open>None\<close> or a string; a row's house and cohort are strings, and a string
  equals no \<^verbatim>\<open>None\<close>.
\<close>

definition get_housemates_for :: "filesystem \<Rightarrow> string \<Rightarrow> string \<Rightarrow> error + string set" where
  "get_housemates_for fs filename name =
     (case get_cohort_for fs filename name of
        Inl e \<Rightarrow> Inl e
      | Inr target_cohort \<Rightarrow>
          (case get_house_for fs filename name of
             Inl e \<Rightarrow> Inl e
           | Inr target_house \<Rightarrow>
               (case all_data fs filename of
                  Inl e \<Rightarrow> Inl e
                | Inr rows \<Rightarrow>
                    (case unpack_each unpack4 rows of
                       Inl e \<Rightarrow> Inl e
                     | Inr ts \<Rightarrow>
                         Inr (set (map (\<lambda>(full_name, _, _, _). full_name)
                                (filter (\<lambda>(full_name, house, _, cohort_name).
                                           full_name \<noteq> name
                                           \<and> Some house = target_house
                                           \<and> Some cohort_name = target_cohort) ts)))))))"

subsection \<open>\<^verbatim>\<open>find_duped_last_names\<close>\<close>

text \<open>
  The loop over the rows a loader returns, with the two sets it updates
  (the source's \<^verbatim>\<open>last\<close> is \<open>lastname\<close> here).
\<close>

fun dupes_loop :: "string set \<Rightarrow> string set \<Rightarrow> row list \<Rightarrow> error + string set" where
  "dupes_loop dupes seen_names [] = Inr dupes"
| "dupes_loop dupes seen_names (r # rs) =
     (case unpack2_rest r of
        Inl e \<Rightarrow> Inl e
      | Inr (first, lastname, _) \<Rightarrow>
          dupes_loop (if lastname \<in> seen_names then insert lastname dupes else dupes)
            (insert lastname seen_names) rs)"

text \<open>
  The body calls \<^verbatim>\<open>read_cohort_data(filename)\<close>.  The name is looked up among the module's
  globals when the call is reached.  The module has no \<^verbatim>\<open>import\<close> and its \<^verbatim>\<open>def\<close>s bind
  \<^verbatim>\<open>all_houses\<close>, \<^verbatim>\<open>students_by_cohort\<close>, \<^verbatim>\<open>all_names_by_house\<close>, \<^verbatim>\<open>all_data\<close>,
  \<^verbatim>\<open>get_cohort_for\<close>, \<^verbatim>\<open>find_duped_last_names\<close>, \<^verbatim>\<open>get_house_for\<close> and
  \<^verbatim>\<open>get_housemates_for\<close>; of these, the one that takes a file name and returns rows is
  \<^verbatim>\<open>all_data\<close>.  \<open>module_loader\<close> is the lookup of a loader by name: \<open>None\<close> is Python's
  \<^verbatim>\<open>NameError\<close>.
\<close>

definition module_loader :: "string \<Rightarrow> (filesystem \<Rightarrow> string \<Rightarrow> error + row list) option" where
  "module_loader n = (if n = ''all_data'' then Some all_data else None)"

definition find_duped_last_names_with ::
  "(filesystem \<Rightarrow> string \<Rightarrow> error + row list) option \<Rightarrow> filesystem \<Rightarrow> string \<Rightarrow> error + string set"
where
  "find_duped_last_names_with loader fs filename =
     (case loader of
        None \<Rightarrow> Inl NameError
      | Some read_cohort_data \<Rightarrow>
          (case read_cohort_data fs filename of
             Inl e \<Rightarrow> Inl e
           | Inr rows \<Rightarrow> dupes_loop {} {} rows))"

definition find_duped_last_names :: "filesystem \<Rightarrow> string \<Rightarrow> error + string set" where
  "find_duped_last_names fs filename =
     find_duped_last_names_with (module_loader ''read_cohort_data'') fs filename"

section \<open>Notions used to state the properties\<close>

text \<open>The fields of one line, as \<^verbatim>\<open>all_data\<close> computes them for \<^verbatim>\<open>data\<close>.\<close>

definition fields :: "string \<Rightarrow> row" where
  "fields line = str_split (CHR ''|'') (rstrip line)"

text \<open>Fields written one after the other with the separator between them.\<close>

fun join :: "char \<Rightarrow> string list \<Rightarrow> string" where
  "join sep [] = []"
| "join sep [x] = x"
| "join sep (x # y # ys) = x @ sep # join sep (y # ys)"

text \<open>The four positions of a record \<^verbatim>\<open>(full_name, house, adviser, cohort)\<close>.\<close>

definition rec_full_name :: "row \<Rightarrow> string" where
  "rec_full_name r = r ! 0"

definition rec_house :: "row \<Rightarrow> string" where
  "rec_house r = r ! 1"

definition rec_adviser :: "row \<Rightarrow> string" where
  "rec_adviser r = r ! 2"

definition rec_cohort :: "row \<Rightarrow> string" where
  "rec_cohort r = r ! 3"

text \<open>Every row is a tuple of exactly four strings.\<close>

definition four_fields :: "row list \<Rightarrow> bool" where
  "four_fields recs = list_all (\<lambda>r. length r = 4) recs"

text \<open>
  Modelled from the spec: \<^verbatim>\<open>read_cohort_data\<close>, which \<^verbatim>\<open>find_duped_last_names\<close> calls and the
  module neither defines nor imports.  The spec has \<^verbatim>\<open>find_duped_last_names\<close> ``independently
  re-split the raw lines (it needs the un-merged first/last fields)'': the rows are the lines
  of the file, stripped and split as the loader does, with the first two fields left apart.
\<close>

definition read_cohort_data :: "filesystem \<Rightarrow> string \<Rightarrow> error + row list" where
  "read_cohort_data fs filename =
     (case fs filename of
        None \<Rightarrow> Inl FileNotFoundError
      | Some cohort_data \<Rightarrow> Inr (split_lines cohort_data))"

subsection \<open>Example files\<close>

definition hogwarts_lines :: "string list" where
  "hogwarts_lines =
     [''Harry|Potter|Gryffindor|McGonagall|Fall 2015'' @ [CHR 0x0A],
      ''Ron|Weasley|Gryffindor|McGonagall|Fall 2015'' @ [CHR 0x0A],
      ''Fred|Weasley|Gryffindor|McGonagall|Winter 2016'' @ [CHR 0x0A],
      ''Moaning|Myrtle|||G'' @ [CHR 0x0A],
      ''Cho|Chang|Ravenclaw|Flitwick|Fall 2015'' @ [CHR 0x0A],
      ''Nearly Headless|Nick|||G'' @ [CHR 0x0A],
      ''Severus|Snape|||I'' @ [CHR 0x0A]]"

definition hogwarts_fs :: filesystem where
  "hogwarts_fs n = (if n = ''cohort_data.txt'' then Some hogwarts_lines else None)"

definition hogwarts_records :: "row list" where
  "hogwarts_records =
     [[''Harry Potter'', ''Gryffindor'', ''McGonagall'', ''Fall 2015''],
      [''Ron Weasley'', ''Gryffindor'', ''McGonagall'', ''Fall 2015''],
      [''Fred Weasley'', ''Gryffindor'', ''McGonagall'', ''Winter 2016''],
      [''Moaning Myrtle'', [], [], ''G''],
      [''Cho Chang'', ''Ravenclaw'', ''Flitwick'', ''Fall 2015''],
      [''Nearly Headless Nick'', [], [], ''G''],
      [''Severus Snape'', [], [], ''I'']]"

text \<open>A file whose second line is blank.\<close>

definition blank_line_lines :: "string list" where
  "blank_line_lines =
     [''Harry|Potter|Gryffindor|McGonagall|Fall 2015'' @ [CHR 0x0A], [CHR 0x0A]]"

definition blank_line_fs :: filesystem where
  "blank_line_fs n = (if n = ''cohort_data.txt'' then Some blank_line_lines else None)"

text \<open>A file with a student whose cohort field is the string \<^verbatim>\<open>All\<close>.\<close>

definition lovegood_lines :: "string list" where
  "lovegood_lines =
     [''Luna|Lovegood|Ravenclaw|Flitwick|All'' @ [CHR 0x0A],
      ''Harry|Potter|Gryffindor|McGonagall|Fall 2015'' @ [CHR 0x0A],
      ''Severus|Snape|||I'' @ [CHR 0x0A]]"

definition lovegood_fs :: filesystem where
  "lovegood_fs n = (if n = ''cohort_data.txt'' then Some lovegood_lines else None)"

definition lovegood_records :: "row list" where
  "lovegood_records =
     [[''Luna Lovegood'', ''Ravenclaw'', ''Flitwick'', ''All''],
      [''Harry Potter'', ''Gryffindor'', ''McGonagall'', ''Fall 2015''],
      [''Severus Snape'', [], [], ''I'']]"

text \<open>A file in which two students have the same full name.\<close>

definition patil_lines :: "string list" where
  "patil_lines =
     [''Parvati|Patil|Gryffindor|McGonagall|Fall 2015'' @ [CHR 0x0A],
      ''Harry|Potter|Gryffindor|McGonagall|Fall 2015'' @ [CHR 0x0A],
      ''Parvati|Patil|Ravenclaw|Flitwick|Fall 2015'' @ [CHR 0x0A],
      ''Moaning|Myrtle|||G'' @ [CHR 0x0A],
      ''Cho|Chang|Ravenclaw|Flitwick|Winter 2016'' @ [CHR 0x0A]]"

definition patil_fs :: filesystem where
  "patil_fs n = (if n = ''cohort_data.txt'' then Some patil_lines else None)"

definition patil_records :: "row list" where
  "patil_records =
     [[''Parvati Patil'', ''Gryffindor'', ''McGonagall'', ''Fall 2015''],
      [''Harry Potter'', ''Gryffindor'', ''McGonagall'', ''Fall 2015''],
      [''Parvati Patil'', ''Ravenclaw'', ''Flitwick'', ''Fall 2015''],
      [''Moaning Myrtle'', [], [], ''G''],
      [''Cho Chang'', ''Ravenclaw'', ''Flitwick'', ''Winter 2016'']]"

text \<open>The file of the two Weasley lines.\<close>

definition weasley_lines :: "string list" where
  "weasley_lines =
     [''Fred|Weasley|Gryffindor|McGonagall|Fall 2015'' @ [CHR 0x0A],
      ''George|Weasley|Gryffindor|McGonagall|Fall 2015'' @ [CHR 0x0A]]"

definition weasley_fs :: filesystem where
  "weasley_fs n = (if n = ''cohort_data.txt'' then Some weasley_lines else None)"

subsection \<open>The seven rosters\<close>

definition house_names :: "string list" where
  "house_names = [''Dumbledore's Army'', ''Gryffindor'', ''Hufflepuff'', ''Ravenclaw'', ''Slytherin'']"

text \<open>
  The record belongs to roster number \<open>k\<close>: rosters 0 to 4 are the five houses in the order of
  \<open>house_names\<close>, roster 5 the ghosts and roster 6 the instructors.
\<close>

definition in_bucket :: "nat \<Rightarrow> row \<Rightarrow> bool" where
  "in_bucket k r =
     (if k < 5 then rec_house r = house_names ! k
      else if k = 5 then rec_house r = [] \<and> rec_cohort r = ''G''
      else if k = 6 then rec_house r = [] \<and> rec_cohort r = ''I''
      else False)"

text \<open>
  The record uses one of the five house names, or has no house and one of the two sentinels as
  its cohort.
\<close>

definition canonical :: "row \<Rightarrow> bool" where
  "canonical r \<longleftrightarrow>
     rec_house r \<in> set house_names \<or> (rec_house r = [] \<and> rec_cohort r \<in> set [''G'', ''I''])"

section \<open>Splitting, stripping and unpacking\<close>

lemma str_split_not_Nil: "str_split sep s \<noteq> []"
  by (induction s) (auto split: list.splits)

lemma join_str_split: "join sep (str_split sep s) = s"
proof (induction s)
  case Nil
  show ?case by simp
next
  case (Cons c cs)
  obtain w ws where w: "str_split sep cs = w # ws"
    using str_split_not_Nil [of sep cs] by (cases "str_split sep cs") auto
  show ?case using Cons w by (cases ws) auto
qed

lemma str_split_no_sep: "f \<in> set (str_split sep s) \<Longrightarrow> sep \<notin> set f"
  by (induction s arbitrary: f) (auto split: if_splits list.splits)

lemma length_str_split: "length (str_split sep s) = Suc (count_list s sep)"
  by (induction s) (auto split: list.splits simp: str_split_not_Nil)

lemma rstrip_decompose: "\<exists>ws. s = rstrip s @ ws \<and> (\<forall>c\<in>set ws. isspace c)"
proof -
  have "rev s = takeWhile isspace (rev s) @ dropWhile isspace (rev s)" by simp
  then have "s = rev (dropWhile isspace (rev s)) @ rev (takeWhile isspace (rev s))"
    by (metis rev_append rev_rev_ident)
  moreover have "\<forall>c\<in>set (rev (takeWhile isspace (rev s))). isspace c"
    by (auto dest: set_takeWhileD)
  ultimately show ?thesis unfolding rstrip_def by blast
qed

lemma rstrip_end: "rstrip s = [] \<or> \<not> isspace (last (rstrip s))"
proof (cases "dropWhile isspace (rev s)")
  case Nil
  then show ?thesis by (simp add: rstrip_def)
next
  case (Cons c cs)
  then have "\<not> isspace c" by (simp add: dropWhile_eq_Cons_conv)
  then show ?thesis using Cons by (simp add: rstrip_def)
qed

lemma unpack_each_Inr:
  "(\<And>x. x \<in> set xs \<Longrightarrow> f x = Inr (g x)) \<Longrightarrow> unpack_each f xs = Inr (map g xs)"
  by (induction xs) auto

lemma unpack_each_Inl:
  assumes "x \<in> set xs" and "f x = Inl e" and "\<And>y e'. f y = Inl e' \<Longrightarrow> e' = e"
  shows "unpack_each f xs = Inl e"
  using assms(1)
proof (induction xs)
  case Nil
  then show ?case by simp
next
  case (Cons a xs)
  show ?case
  proof (cases "f a")
    case (Inl e')
    then show ?thesis using assms(3) [OF Inl] by simp
  next
    case (Inr y)
    then have "x \<in> set xs" using Cons.prems assms(2) by auto
    then show ?thesis using Cons.IH Inr by simp
  qed
qed

lemma unpack2_rest_Inr: "2 \<le> length r \<Longrightarrow> unpack2_rest r = Inr (r ! 0, r ! 1, drop 2 r)"
  by (cases r rule: unpack2_rest.cases) auto

lemma unpack2_rest_Inl: "length r < 2 \<Longrightarrow> unpack2_rest r = Inl ValueError"
  by (cases r rule: unpack2_rest.cases) auto

lemma unpack2_rest_error: "unpack2_rest r = Inl e \<Longrightarrow> e = ValueError"
  by (cases r rule: unpack2_rest.cases) auto

lemma unpack4_Inr: "length r = 4 \<Longrightarrow> unpack4 r = Inr (r ! 0, r ! 1, r ! 2, r ! 3)"
  by (cases r rule: unpack4.cases) auto

lemma unpack4_error: "unpack4 r = Inl e \<Longrightarrow> e = ValueError"
  by (cases r rule: unpack4.cases) auto

lemma merge_name_Inr:
  "2 \<le> length r \<Longrightarrow> merge_name r = Inr ((r ! 0 @ '' '' @ r ! 1) # drop 2 r)"
  by (simp add: merge_name_def unpack2_rest_Inr)

lemma merge_name_Inl: "length r < 2 \<Longrightarrow> merge_name r = Inl ValueError"
  by (simp add: merge_name_def unpack2_rest_Inl)

lemma merge_name_error: "merge_name r = Inl e \<Longrightarrow> e = ValueError"
  by (auto simp: merge_name_def split: sum.splits dest: unpack2_rest_error)

lemma all_data_Inr:
  assumes "fs filename = Some lines" and "\<forall>line\<in>set lines. 2 \<le> length (fields line)"
  shows "all_data fs filename
         = Inr (map (\<lambda>line. (fields line ! 0 @ '' '' @ fields line ! 1) # drop 2 (fields line)) lines)"
proof -
  have "unpack_each merge_name (split_lines lines)
        = Inr (map (\<lambda>r. (r ! 0 @ '' '' @ r ! 1) # drop 2 r) (split_lines lines))"
    using assms(2) by (intro unpack_each_Inr merge_name_Inr) (auto simp: split_lines_def fields_def)
  then show ?thesis using assms(1) by (simp add: all_data_def split_lines_def fields_def comp_def)
qed

lemma all_data_Inl:
  assumes "fs filename = Some lines" and "line \<in> set lines" and "length (fields line) < 2"
  shows "all_data fs filename = Inl ValueError"
proof -
  have "fields line \<in> set (split_lines lines)"
    using assms(2) by (auto simp: split_lines_def fields_def)
  then have "unpack_each merge_name (split_lines lines) = Inl ValueError"
    using merge_name_Inl [OF assms(3)] merge_name_error by (rule unpack_each_Inl)
  then show ?thesis using assms(1) by (simp add: all_data_def)
qed

subsection \<open>The example file loads into its records\<close>

lemma hogwarts_all_data: "all_data hogwarts_fs ''cohort_data.txt'' = Inr hogwarts_records"
  by code_simp

lemma hogwarts_four_fields: "four_fields hogwarts_records"
  by code_simp

section \<open>The loader\<close>

text \<open>
  Claim C8.  When every line of the file has at least two fields, \<^verbatim>\<open>all_data\<close> returns one
  record per line, in file order.  The fields of a line are what the line splits into on
  \<^verbatim>\<open>|\<close> once its trailing whitespace is gone: written one after the other with \<^verbatim>\<open>|\<close>
  between them and followed by whitespace only they give back the line, the stripped text
  does not end in whitespace, and no field contains \<^verbatim>\<open>|\<close>.  The record of the line is
  its first two fields joined with one space, followed by the remaining fields in their
  order (house, adviser, cohort for a line of five fields).
\<close>

theorem all_data_records:
  assumes "fs filename = Some lines"
    and "list_all (\<lambda>line. 2 \<le> length (fields line)) lines"
  shows "\<exists>recs. all_data fs filename = Inr recs \<and> length recs = length lines \<and>
           (\<forall>i<length lines.
              (\<exists>ws. lines ! i = join (CHR ''|'') (fields (lines ! i)) @ ws
                    \<and> (\<forall>c\<in>set ws. isspace c))
              \<and> (join (CHR ''|'') (fields (lines ! i)) = []
                  \<or> \<not> isspace (last (join (CHR ''|'') (fields (lines ! i)))))
              \<and> (\<forall>f\<in>set (fields (lines ! i)). CHR ''|'' \<notin> set f)
              \<and> recs ! i = (fields (lines ! i) ! 0 @ '' '' @ fields (lines ! i) ! 1)
                              # drop 2 (fields (lines ! i)))"
proof -
  let ?g = "\<lambda>line. (fields line ! 0 @ '' '' @ fields line ! 1) # drop 2 (fields line)"
  have wf: "\<forall>line\<in>set lines. 2 \<le> length (fields line)"
    using assms(2) by (simp add: list_all_iff)
  have ad: "all_data fs filename = Inr (map ?g lines)"
    using assms(1) wf by (rule all_data_Inr)
  have j: "join (CHR ''|'') (fields l) = rstrip l" for l
    by (simp add: fields_def join_str_split)
  have "\<forall>i<length lines.
              (\<exists>ws. lines ! i = join (CHR ''|'') (fields (lines ! i)) @ ws
                    \<and> (\<forall>c\<in>set ws. isspace c))
              \<and> (join (CHR ''|'') (fields (lines ! i)) = []
                  \<or> \<not> isspace (last (join (CHR ''|'') (fields (lines ! i)))))
              \<and> (\<forall>f\<in>set (fields (lines ! i)). CHR ''|'' \<notin> set f)
              \<and> map ?g lines ! i = ?g (lines ! i)"
    using rstrip_decompose rstrip_end str_split_no_sep
    by (simp add: j) (simp add: fields_def str_split_no_sep)
  then show ?thesis using ad by simp
qed

theorem all_data_records_witness:
  "hogwarts_fs ''cohort_data.txt'' = Some hogwarts_lines
   \<and> list_all (\<lambda>line. 2 \<le> length (fields line)) hogwarts_lines
   \<and> (\<exists>recs. all_data hogwarts_fs ''cohort_data.txt'' = Inr recs
         \<and> length recs = length hogwarts_lines
         \<and> recs ! 3 = [''Moaning Myrtle'', [], [], ''G''])"
proof -
  have h1: "hogwarts_fs ''cohort_data.txt'' = Some hogwarts_lines"
    by (simp add: hogwarts_fs_def)
  have h2: "list_all (\<lambda>line. 2 \<le> length (fields line)) hogwarts_lines"
    by code_simp
  have f3: "fields (hogwarts_lines ! 3) = [''Moaning'', ''Myrtle'', [], [], ''G'']"
    by code_simp
  have l: "(3::nat) < length hogwarts_lines"
    by (simp add: hogwarts_lines_def)
  from all_data_records [of hogwarts_fs "''cohort_data.txt''" hogwarts_lines, OF h1 h2] obtain recs where
    r: "all_data hogwarts_fs ''cohort_data.txt'' = Inr recs" "length recs = length hogwarts_lines"
    and "\<forall>i<length hogwarts_lines.
           recs ! i = (fields (hogwarts_lines ! i) ! 0 @ '' '' @ fields (hogwarts_lines ! i) ! 1)
                        # drop 2 (fields (hogwarts_lines ! i))"
    by blast
  then have "recs ! 3 = [''Moaning Myrtle'', [], [], ''G'']"
    using l f3 by simp
  then show ?thesis using h1 h2 r by blast
qed

section \<open>Unpacking the records\<close>

lemma four_fieldsD: "four_fields recs \<Longrightarrow> r \<in> set recs \<Longrightarrow> length r = 4"
  by (simp add: four_fields_def list_all_iff)

lemma unpack_each_unpack4:
  assumes "four_fields recs"
  shows "unpack_each unpack4 recs
         = Inr (map (\<lambda>r. (rec_full_name r, rec_house r, rec_adviser r, rec_cohort r)) recs)"
  using assms
  by (intro unpack_each_Inr)
     (simp add: four_fieldsD unpack4_Inr rec_full_name_def rec_house_def rec_adviser_def
        rec_cohort_def)

lemma unpack_each_unpack2_rest:
  assumes "list_all (\<lambda>r. 2 \<le> length r) recs"
  shows "unpack_each unpack2_rest recs
         = Inr (map (\<lambda>r. (rec_full_name r, rec_house r, drop 2 r)) recs)"
  using assms
  by (intro unpack_each_Inr)
     (simp add: list_all_iff unpack2_rest_Inr rec_full_name_def rec_house_def)

lemma blank_fields:
  assumes "\<forall>c\<in>set line. isspace c"
  shows "fields line = [[]]"
proof -
  have d: "dropWhile isspace (rev line) = []" using assms by simp
  show ?thesis unfolding fields_def rstrip_def d by simp
qed

lemma cohort_loop_find:
  "four_fields recs \<Longrightarrow>
   cohort_loop name recs = Inr (map_option rec_cohort (find (\<lambda>r. rec_full_name r = name) recs))"
proof (induction recs)
  case Nil
  show ?case by simp
next
  case (Cons r rs)
  have "length r = 4" and "four_fields rs"
    using Cons.prems by (simp_all add: four_fields_def)
  then show ?case
    using Cons.IH by (simp add: unpack4_Inr rec_full_name_def rec_cohort_def)
qed

lemma house_loop_find:
  "list_all (\<lambda>r. 2 \<le> length r) recs \<Longrightarrow>
   house_loop name recs = Inr (map_option rec_house (find (\<lambda>r. rec_full_name r = name) recs))"
proof (induction recs)
  case Nil
  show ?case by simp
next
  case (Cons r rs)
  then show ?case
    by (simp add: unpack2_rest_Inr rec_full_name_def rec_house_def)
qed

lemma four_fields_two: "four_fields recs \<Longrightarrow> list_all (\<lambda>r. 2 \<le> length r) recs"
  by (simp add: four_fields_def list_all_iff)

section \<open>Lines with fewer than two fields\<close>

text \<open>
  Claim C9.  For a file that can be opened: if every line splits into at least two fields,
  \<^verbatim>\<open>all_data\<close> returns its records (the unpacking into first, last and rest never fails);
  if some line splits into fewer than two fields, \<^verbatim>\<open>all_data\<close> raises \<^verbatim>\<open>ValueError\<close>, and so
  does every query that loads the file through it, whatever its other arguments; and a line
  of whitespace only, such as a blank line, is a line with fewer than two fields.
\<close>

theorem malformed_line_fails:
  assumes "fs filename = Some lines"
  shows "(list_all (\<lambda>line. 2 \<le> length (fields line)) lines
            \<longrightarrow> (\<exists>recs. all_data fs filename = Inr recs))
       \<and> (list_ex (\<lambda>line. length (fields line) < 2) lines
            \<longrightarrow> all_data fs filename = Inl ValueError
              \<and> all_houses fs filename = Inl ValueError
              \<and> students_by_cohort fs filename c = Inl ValueError
              \<and> students_by_cohort_default fs filename = Inl ValueError
              \<and> all_names_by_house fs filename = Inl ValueError
              \<and> get_cohort_for fs filename name = Inl ValueError
              \<and> get_house_for fs filename name = Inl ValueError
              \<and> get_housemates_for fs filename name = Inl ValueError)
       \<and> (list_ex (\<lambda>line. list_all isspace line) lines
            \<longrightarrow> list_ex (\<lambda>line. length (fields line) < 2) lines)"
proof (intro conjI impI)
  assume "list_all (\<lambda>line. 2 \<le> length (fields line)) lines"
  then have "\<forall>line\<in>set lines. 2 \<le> length (fields line)" by (simp add: list_all_iff)
  with assms show "\<exists>recs. all_data fs filename = Inr recs"
    using all_data_Inr by blast
next
  assume "list_ex (\<lambda>line. list_all isspace line) lines"
  then obtain line where "line \<in> set lines" "\<forall>c\<in>set line. isspace c"
    by (auto simp: list_ex_iff list_all_iff)
  then show "list_ex (\<lambda>line. length (fields line) < 2) lines"
    using blank_fields [of line] by (auto simp: list_ex_iff intro!: bexI [of _ line])
next
  assume "list_ex (\<lambda>line. length (fields line) < 2) lines"
  then obtain line where "line \<in> set lines" "length (fields line) < 2"
    by (auto simp: list_ex_iff)
  with assms have e: "all_data fs filename = Inl ValueError"
    by (rule all_data_Inl)
  show "all_data fs filename = Inl ValueError" by (rule e)
  show "all_houses fs filename = Inl ValueError" by (simp add: all_houses_def e)
  show "students_by_cohort fs filename c = Inl ValueError"
    by (simp add: students_by_cohort_def student_data_def e)
  show "students_by_cohort_default fs filename = Inl ValueError"
    by (simp add: students_by_cohort_default_def students_by_cohort_def student_data_def e)
  show "all_names_by_house fs filename = Inl ValueError" by (simp add: all_names_by_house_def e)
  show "get_cohort_for fs filename name = Inl ValueError" by (simp add: get_cohort_for_def e)
  show "get_house_for fs filename name = Inl ValueError" by (simp add: get_house_for_def e)
  show "get_housemates_for fs filename name = Inl ValueError"
    by (simp add: get_housemates_for_def get_cohort_for_def e)
qed

theorem malformed_line_fails_witness:
  "(\<exists>recs. all_data hogwarts_fs ''cohort_data.txt'' = Inr recs)
   \<and> list_ex (\<lambda>line. list_all isspace line) blank_line_lines
   \<and> all_data blank_line_fs ''cohort_data.txt'' = Inl ValueError
   \<and> all_houses blank_line_fs ''cohort_data.txt'' = Inl ValueError
   \<and> students_by_cohort blank_line_fs ''cohort_data.txt'' ''Fall 2015'' = Inl ValueError
   \<and> students_by_cohort_default blank_line_fs ''cohort_data.txt'' = Inl ValueError
   \<and> all_names_by_house blank_line_fs ''cohort_data.txt'' = Inl ValueError
   \<and> get_cohort_for blank_line_fs ''cohort_data.txt'' ''Harry Potter'' = Inl ValueError
   \<and> get_house_for blank_line_fs ''cohort_data.txt'' ''Harry Potter'' = Inl ValueError
   \<and> get_housemates_for blank_line_fs ''cohort_data.txt'' ''Harry Potter'' = Inl ValueError"
proof -
  have h1: "hogwarts_fs ''cohort_data.txt'' = Some hogwarts_lines"
    by (simp add: hogwarts_fs_def)
  have h2: "list_all (\<lambda>line. 2 \<le> length (fields line)) hogwarts_lines"
    by code_simp
  have b1: "blank_line_fs ''cohort_data.txt'' = Some blank_line_lines"
    by (simp add: blank_line_fs_def)
  have b2: "list_ex (\<lambda>line. list_all isspace line) blank_line_lines"
    by code_simp
  show ?thesis
    using malformed_line_fails [of hogwarts_fs "''cohort_data.txt''" hogwarts_lines, OF h1]
      malformed_line_fails [of blank_line_fs "''cohort_data.txt''" blank_line_lines
        "''Fall 2015''" "''Harry Potter''", OF b1]
      h2 b2
    by blast
qed

section \<open>Houses\<close>

text \<open>
  Claim C7.  For a file that loads into records of at least two fields, \<^verbatim>\<open>all_houses\<close>
  returns exactly the set of the non-empty values found in the house field of some record:
  it never contains the empty string and contains only house fields of records.
\<close>

theorem all_houses_exact:
  assumes "all_data fs filename = Inr recs" and "list_all (\<lambda>r. 2 \<le> length r) recs"
  shows "\<exists>S. all_houses fs filename = Inr S
           \<and> S = {h. h \<noteq> [] \<and> h \<in> rec_house ` set recs}
           \<and> [] \<notin> S \<and> S \<subseteq> rec_house ` set recs"
proof -
  have "set (map (\<lambda>(_, house, _). house)
          (filter (\<lambda>(_, house, _). house \<noteq> [])
             (map (\<lambda>r. (rec_full_name r, rec_house r, drop 2 r)) recs)))
        = {h. h \<noteq> [] \<and> h \<in> rec_house ` set recs}"
    by force
  then show ?thesis
    using assms(1) unpack_each_unpack2_rest [OF assms(2)]
    by (auto simp: all_houses_def)
qed

theorem all_houses_exact_witness:
  "all_data hogwarts_fs ''cohort_data.txt'' = Inr hogwarts_records
   \<and> list_all (\<lambda>r. 2 \<le> length r) hogwarts_records
   \<and> all_houses hogwarts_fs ''cohort_data.txt'' = Inr {''Gryffindor'', ''Ravenclaw''}"
proof -
  have h2: "list_all (\<lambda>r. 2 \<le> length r) hogwarts_records"
    by code_simp
  have "{h. h \<noteq> [] \<and> h \<in> rec_house ` set hogwarts_records} = {''Gryffindor'', ''Ravenclaw''}"
    by (auto simp: hogwarts_records_def rec_house_def)
  then show ?thesis
    using all_houses_exact [OF hogwarts_all_data h2] hogwarts_all_data h2 by auto
qed

section \<open>Looking a name up\<close>

text \<open>
  Claim C6.  For a file that loads into records of four fields and every name,
  \<^verbatim>\<open>get_cohort_for\<close> returns the cohort field, and \<^verbatim>\<open>get_house_for\<close> the house field, of the
  first record in file order whose full name equals the name; when no record has that name both
  return \<^verbatim>\<open>None\<close> as a value, and raise nothing.
\<close>

theorem lookup_first_match:
  assumes "all_data fs filename = Inr recs" and "four_fields recs"
  shows "get_cohort_for fs filename name
           = Inr (map_option rec_cohort (find (\<lambda>r. rec_full_name r = name) recs))
       \<and> get_house_for fs filename name
           = Inr (map_option rec_house (find (\<lambda>r. rec_full_name r = name) recs))
       \<and> (list_all (\<lambda>r. rec_full_name r \<noteq> name) recs
            \<longrightarrow> get_cohort_for fs filename name = Inr None
              \<and> get_house_for fs filename name = Inr None)"
proof -
  have c: "get_cohort_for fs filename name
           = Inr (map_option rec_cohort (find (\<lambda>r. rec_full_name r = name) recs))"
    using assms by (simp add: get_cohort_for_def cohort_loop_find)
  have h: "get_house_for fs filename name
           = Inr (map_option rec_house (find (\<lambda>r. rec_full_name r = name) recs))"
    using assms by (simp add: get_house_for_def house_loop_find four_fields_two)
  have "find (\<lambda>r. rec_full_name r = name) recs = None"
    if "list_all (\<lambda>r. rec_full_name r \<noteq> name) recs"
    using that by (simp add: find_None_iff list_all_iff)
  then show ?thesis using c h by simp
qed

theorem lookup_first_match_witness:
  "all_data hogwarts_fs ''cohort_data.txt'' = Inr hogwarts_records
   \<and> four_fields hogwarts_records
   \<and> get_cohort_for hogwarts_fs ''cohort_data.txt'' ''Ron Weasley'' = Inr (Some ''Fall 2015'')
   \<and> get_house_for hogwarts_fs ''cohort_data.txt'' ''Ron Weasley'' = Inr (Some ''Gryffindor'')
   \<and> list_all (\<lambda>r. rec_full_name r \<noteq> ''Balloonicorn'') hogwarts_records
   \<and> get_cohort_for hogwarts_fs ''cohort_data.txt'' ''Balloonicorn'' = Inr None
   \<and> get_house_for hogwarts_fs ''cohort_data.txt'' ''Balloonicorn'' = Inr None"
proof -
  have n: "list_all (\<lambda>r. rec_full_name r \<noteq> ''Balloonicorn'') hogwarts_records"
    by code_simp
  have f: "find (\<lambda>r. rec_full_name r = ''Ron Weasley'') hogwarts_records
           = Some [''Ron Weasley'', ''Gryffindor'', ''McGonagall'', ''Fall 2015'']"
    by code_simp
  have ron: "get_cohort_for hogwarts_fs ''cohort_data.txt'' ''Ron Weasley'' = Inr (Some ''Fall 2015'')
      \<and> get_house_for hogwarts_fs ''cohort_data.txt'' ''Ron Weasley'' = Inr (Some ''Gryffindor'')"
    using lookup_first_match [OF hogwarts_all_data hogwarts_four_fields, of "''Ron Weasley''"]
    by (simp add: f rec_cohort_def rec_house_def)
  have nobody: "get_cohort_for hogwarts_fs ''cohort_data.txt'' ''Balloonicorn'' = Inr None
      \<and> get_house_for hogwarts_fs ''cohort_data.txt'' ''Balloonicorn'' = Inr None"
    using lookup_first_match [OF hogwarts_all_data hogwarts_four_fields, of "''Balloonicorn''"] n
    by blast
  show ?thesis
    using hogwarts_all_data hogwarts_four_fields n ron nobody by blast
qed

section \<open>Students by cohort\<close>

lemma lovegood_all_data: "all_data lovegood_fs ''cohort_data.txt'' = Inr lovegood_records"
  by code_simp

lemma lovegood_four_fields: "four_fields lovegood_records"
  by code_simp

lemma patil_all_data: "all_data patil_fs ''cohort_data.txt'' = Inr patil_records"
  by code_simp

lemma patil_four_fields: "four_fields patil_records"
  by code_simp

lemma student_data_eq:
  assumes "all_data fs filename = Inr recs" and "four_fields recs"
  shows "student_data fs filename
         = Inr (map (\<lambda>r. (rec_full_name r, rec_cohort r))
                  (filter (\<lambda>r. rec_cohort r \<noteq> ''I'' \<and> rec_cohort r \<noteq> ''G'') recs))"
  using assms(1) unpack_each_unpack4 [OF assms(2)]
  by (simp add: student_data_def filter_map comp_def)

lemma students_by_cohort_All:
  assumes "all_data fs filename = Inr recs" and "four_fields recs"
  shows "students_by_cohort fs filename ''All''
         = Inr (sort (map rec_full_name
                  (filter (\<lambda>r. rec_cohort r \<noteq> ''I'' \<and> rec_cohort r \<noteq> ''G'') recs)))"
  by (simp add: students_by_cohort_def student_data_eq [OF assms] comp_def)

lemma students_by_cohort_other:
  assumes "all_data fs filename = Inr recs" and "four_fields recs" and "c \<noteq> ''All''"
  shows "students_by_cohort fs filename c
         = Inr (sort (map rec_full_name
                  (filter (\<lambda>r. rec_cohort r = c \<and> rec_cohort r \<noteq> ''I'' \<and> rec_cohort r \<noteq> ''G'')
                     recs)))"
  using assms(3)
  by (simp add: students_by_cohort_def student_data_eq [OF assms(1,2)] filter_map comp_def
      conj_commute conj_left_commute)

lemma length_filter_neither:
  assumes "a \<noteq> b"
  shows "length (filter (\<lambda>r. f r \<noteq> a \<and> f r \<noteq> b) xs)
         + length (filter (\<lambda>r. f r = b) xs) + length (filter (\<lambda>r. f r = a) xs) = length xs"
  using assms by (induction xs) auto

text \<open>
  Claim C4.  For a file that loads into records of four fields, \<^verbatim>\<open>students_by_cohort\<close> called
  with \<^verbatim>\<open>"All"\<close>, or with the cohort argument left out, returns a list whose length is the number
  of records minus the number of records of cohort \<^verbatim>\<open>"G"\<close> minus the number of records of cohort
  \<^verbatim>\<open>"I"\<close>.
\<close>

theorem students_all_length:
  assumes "all_data fs filename = Inr recs" and "four_fields recs"
  shows "\<exists>xs. students_by_cohort fs filename ''All'' = Inr xs
           \<and> students_by_cohort_default fs filename = Inr xs
           \<and> length xs = length recs - length (filter (\<lambda>r. rec_cohort r = ''G'') recs)
                                      - length (filter (\<lambda>r. rec_cohort r = ''I'') recs)"
proof -
  let ?xs = "sort (map rec_full_name
               (filter (\<lambda>r. rec_cohort r \<noteq> ''I'' \<and> rec_cohort r \<noteq> ''G'') recs))"
  have "''I'' \<noteq> ''G''" by simp
  from length_filter_neither [OF this, of rec_cohort recs]
  have "length ?xs = length recs - length (filter (\<lambda>r. rec_cohort r = ''G'') recs)
                                 - length (filter (\<lambda>r. rec_cohort r = ''I'') recs)"
    by simp
  then show ?thesis
    using students_by_cohort_All [OF assms] by (simp add: students_by_cohort_default_def)
qed

theorem students_all_length_witness:
  "all_data hogwarts_fs ''cohort_data.txt'' = Inr hogwarts_records
   \<and> four_fields hogwarts_records
   \<and> (\<exists>xs. students_by_cohort hogwarts_fs ''cohort_data.txt'' ''All'' = Inr xs
         \<and> students_by_cohort_default hogwarts_fs ''cohort_data.txt'' = Inr xs
         \<and> length xs = 4)"
proof -
  have "length hogwarts_records - length (filter (\<lambda>r. rec_cohort r = ''G'') hogwarts_records)
          - length (filter (\<lambda>r. rec_cohort r = ''I'') hogwarts_records) = 4"
    by code_simp
  then show ?thesis
    using students_all_length [OF hogwarts_all_data hogwarts_four_fields]
      hogwarts_all_data hogwarts_four_fields
    by simp
qed

text \<open>
  Claim C5.  For a file that loads into records of four fields and a cohort argument other than
  \<^verbatim>\<open>"All"\<close>, \<^verbatim>\<open>students_by_cohort\<close> returns a list that is sorted in the lexicographic order of
  strings and has, each as often as it occurs, exactly the full names of the records whose
  cohort field is equal to the argument and is neither \<^verbatim>\<open>"G"\<close> nor \<^verbatim>\<open>"I"\<close>.
\<close>

theorem students_filtered:
  assumes "all_data fs filename = Inr recs" and "four_fields recs" and "c \<noteq> ''All''"
  shows "\<exists>xs. students_by_cohort fs filename c = Inr xs
           \<and> sorted xs
           \<and> mset xs = mset (map rec_full_name
                          (filter (\<lambda>r. rec_cohort r = c \<and> rec_cohort r \<noteq> ''G''
                                       \<and> rec_cohort r \<noteq> ''I'') recs))"
proof -
  have "(\<lambda>r. rec_cohort r = c \<and> rec_cohort r \<noteq> ''I'' \<and> rec_cohort r \<noteq> ''G'')
        = (\<lambda>r. rec_cohort r = c \<and> rec_cohort r \<noteq> ''G'' \<and> rec_cohort r \<noteq> ''I'')"
    by auto
  then show ?thesis
    using students_by_cohort_other [OF assms] by simp
qed

theorem students_filtered_witness:
  "all_data patil_fs ''cohort_data.txt'' = Inr patil_records
   \<and> four_fields patil_records
   \<and> ''Fall 2015'' \<noteq> ''All''
   \<and> students_by_cohort patil_fs ''cohort_data.txt'' ''Fall 2015''
       = Inr [''Harry Potter'', ''Parvati Patil'', ''Parvati Patil'']"
proof -
  have ne: "''Fall 2015'' \<noteq> ''All''" by simp
  have m: "map rec_full_name
             (filter (\<lambda>r. rec_cohort r = ''Fall 2015'' \<and> rec_cohort r \<noteq> ''G''
                          \<and> rec_cohort r \<noteq> ''I'') patil_records)
           = [''Parvati Patil'', ''Harry Potter'', ''Parvati Patil'']"
    by code_simp
  from students_filtered [OF patil_all_data patil_four_fields ne] obtain xs where
    xs: "students_by_cohort patil_fs ''cohort_data.txt'' ''Fall 2015'' = Inr xs" "sorted xs"
      "mset xs = mset [''Parvati Patil'', ''Harry Potter'', ''Parvati Patil'']"
    unfolding m by blast
  have "sort [''Parvati Patil'', ''Harry Potter'', ''Parvati Patil''] = xs"
    using xs(3) xs(2) by (rule properties_for_sort)
  moreover have "sort [''Parvati Patil'', ''Harry Potter'', ''Parvati Patil'']
                 = [''Harry Potter'', ''Parvati Patil'', ''Parvati Patil'']"
    by code_simp
  ultimately have "xs = [''Harry Potter'', ''Parvati Patil'', ''Parvati Patil'']"
    by simp
  then show ?thesis using xs(1) patil_all_data patil_four_fields ne by simp
qed

text \<open>
  Claim C10.  For a file that loads into records of four fields, the argument \<^verbatim>\<open>"All"\<close> gives
  what leaving the argument out gives: the names of all records that are neither ghosts nor
  instructors, with no comparison of cohorts, among them the name of every record whose cohort
  field is the string \<^verbatim>\<open>All\<close>.  Every other argument selects records whose cohort field equals
  it, so none whose cohort field is \<^verbatim>\<open>All\<close>: no argument selects by that cohort.
\<close>

theorem all_is_no_filter:
  assumes "all_data fs filename = Inr recs" and "four_fields recs"
  shows "students_by_cohort fs filename ''All'' = students_by_cohort_default fs filename
       \<and> (\<exists>xs. students_by_cohort fs filename ''All'' = Inr xs
              \<and> mset xs = mset (map rec_full_name
                             (filter (\<lambda>r. rec_cohort r \<noteq> ''G'' \<and> rec_cohort r \<noteq> ''I'') recs))
              \<and> (\<forall>r\<in>set recs. rec_cohort r = ''All'' \<longrightarrow> rec_full_name r \<in> set xs))
       \<and> (\<forall>c. c \<noteq> ''All'' \<longrightarrow>
              (\<exists>ys. students_by_cohort fs filename c = Inr ys
                 \<and> mset ys = mset (map rec_full_name
                                (filter (\<lambda>r. rec_cohort r = c \<and> rec_cohort r \<noteq> ''All''
                                             \<and> rec_cohort r \<noteq> ''G'' \<and> rec_cohort r \<noteq> ''I'')
                                   recs))))"
proof (intro conjI allI impI)
  show "students_by_cohort fs filename ''All'' = students_by_cohort_default fs filename"
    by (simp add: students_by_cohort_default_def)
next
  let ?P = "\<lambda>r. rec_cohort r \<noteq> ''G'' \<and> rec_cohort r \<noteq> ''I''"
  have p: "(\<lambda>r. rec_cohort r \<noteq> ''I'' \<and> rec_cohort r \<noteq> ''G'') = ?P" by auto
  have "rec_full_name r \<in> set (sort (map rec_full_name (filter ?P recs)))"
    if "r \<in> set recs" "rec_cohort r = ''All''" for r
    using that by auto
  then show "\<exists>xs. students_by_cohort fs filename ''All'' = Inr xs
              \<and> mset xs = mset (map rec_full_name (filter ?P recs))
              \<and> (\<forall>r\<in>set recs. rec_cohort r = ''All'' \<longrightarrow> rec_full_name r \<in> set xs)"
    using students_by_cohort_All [OF assms] unfolding p by simp
next
  fix c :: string
  assume c: "c \<noteq> ''All''"
  have "(\<lambda>r. rec_cohort r = c \<and> rec_cohort r \<noteq> ''I'' \<and> rec_cohort r \<noteq> ''G'')
        = (\<lambda>r. rec_cohort r = c \<and> rec_cohort r \<noteq> ''All'' \<and> rec_cohort r \<noteq> ''G''
                 \<and> rec_cohort r \<noteq> ''I'')"
    using c by auto
  then show "\<exists>ys. students_by_cohort fs filename c = Inr ys
                 \<and> mset ys = mset (map rec_full_name
                                (filter (\<lambda>r. rec_cohort r = c \<and> rec_cohort r \<noteq> ''All''
                                             \<and> rec_cohort r \<noteq> ''G'' \<and> rec_cohort r \<noteq> ''I'')
                                   recs))"
    using students_by_cohort_other [OF assms c] by simp
qed

theorem all_is_no_filter_witness:
  "all_data lovegood_fs ''cohort_data.txt'' = Inr lovegood_records
   \<and> four_fields lovegood_records
   \<and> students_by_cohort lovegood_fs ''cohort_data.txt'' ''All''
       = students_by_cohort_default lovegood_fs ''cohort_data.txt''
   \<and> (\<exists>xs. students_by_cohort lovegood_fs ''cohort_data.txt'' ''All'' = Inr xs
         \<and> mset xs = mset [''Luna Lovegood'', ''Harry Potter'']
         \<and> ''Luna Lovegood'' \<in> set xs)
   \<and> (\<exists>ys. students_by_cohort lovegood_fs ''cohort_data.txt'' ''Fall 2015'' = Inr ys
         \<and> mset ys = mset [''Harry Potter''])"
proof -
  note t = all_is_no_filter [OF lovegood_all_data lovegood_four_fields]
  have luna: "[''Luna Lovegood'', ''Ravenclaw'', ''Flitwick'', ''All''] \<in> set lovegood_records"
    by (simp add: lovegood_records_def)
  have m1: "map rec_full_name
              (filter (\<lambda>r. rec_cohort r \<noteq> ''G'' \<and> rec_cohort r \<noteq> ''I'') lovegood_records)
            = [''Luna Lovegood'', ''Harry Potter'']"
    by code_simp
  have m2: "map rec_full_name
              (filter (\<lambda>r. rec_cohort r = ''Fall 2015'' \<and> rec_cohort r \<noteq> ''All''
                           \<and> rec_cohort r \<noteq> ''G'' \<and> rec_cohort r \<noteq> ''I'') lovegood_records)
            = [''Harry Potter'']"
    by code_simp
  have ne: "''Fall 2015'' \<noteq> ''All''" by simp
  from t [THEN conjunct2, THEN conjunct1] obtain xs where
    xs: "students_by_cohort lovegood_fs ''cohort_data.txt'' ''All'' = Inr xs"
      "mset xs = mset [''Luna Lovegood'', ''Harry Potter'']"
      "\<forall>r\<in>set lovegood_records. rec_cohort r = ''All'' \<longrightarrow> rec_full_name r \<in> set xs"
    unfolding m1 by (elim exE conjE)
  have "rec_cohort [''Luna Lovegood'', ''Ravenclaw'', ''Flitwick'', ''All''] = ''All''"
    by (simp add: rec_cohort_def)
  with bspec [OF xs(3) luna]
  have "rec_full_name [''Luna Lovegood'', ''Ravenclaw'', ''Flitwick'', ''All''] \<in> set xs"
    by (rule mp)
  then have l: "''Luna Lovegood'' \<in> set xs"
    by (simp add: rec_full_name_def)
  from t [THEN conjunct2, THEN conjunct2, rule_format, OF ne] obtain ys where
    ys: "students_by_cohort lovegood_fs ''cohort_data.txt'' ''Fall 2015'' = Inr ys"
      "mset ys = mset [''Harry Potter'']"
    unfolding m2 by (elim exE conjE)
  show ?thesis
    apply (intro conjI)
        apply (rule lovegood_all_data)
       apply (rule lovegood_four_fields)
      apply (rule t [THEN conjunct1])
     apply (rule exI [of _ xs])
     apply (intro conjI xs(1) xs(2) l)
    apply (rule exI [of _ ys])
    apply (intro conjI ys)
    done
qed

section \<open>Names by house\<close>

lemma in_bucket_simps:
  "in_bucket 0 r \<longleftrightarrow> rec_house r = ''Dumbledore's Army''"
  "in_bucket 1 r \<longleftrightarrow> rec_house r = ''Gryffindor''"
  "in_bucket (Suc 0) r \<longleftrightarrow> rec_house r = ''Gryffindor''"
  "in_bucket 2 r \<longleftrightarrow> rec_house r = ''Hufflepuff''"
  "in_bucket 3 r \<longleftrightarrow> rec_house r = ''Ravenclaw''"
  "in_bucket 4 r \<longleftrightarrow> rec_house r = ''Slytherin''"
  "in_bucket 5 r \<longleftrightarrow> rec_house r = [] \<and> rec_cohort r = ''G''"
  "in_bucket 6 r \<longleftrightarrow> rec_house r = [] \<and> rec_cohort r = ''I''"
  by (simp_all add: in_bucket_def house_names_def)

lemma less_7_cases:
  "k < 7 \<longleftrightarrow> k = 0 \<or> k = 1 \<or> k = 2 \<or> k = 3 \<or> k = 4 \<or> k = 5 \<or> k = (6::nat)"
  by arith

lemma step_rosters:
  "dumbledores_army (add_house n h (add_special n h c st))
     = dumbledores_army st @ (if h = ''Dumbledore's Army'' then [n] else [])"
  "gryffindor (add_house n h (add_special n h c st))
     = gryffindor st @ (if h = ''Gryffindor'' then [n] else [])"
  "hufflepuff (add_house n h (add_special n h c st))
     = hufflepuff st @ (if h = ''Hufflepuff'' then [n] else [])"
  "ravenclaw (add_house n h (add_special n h c st))
     = ravenclaw st @ (if h = ''Ravenclaw'' then [n] else [])"
  "slytherin (add_house n h (add_special n h c st))
     = slytherin st @ (if h = ''Slytherin'' then [n] else [])"
  "ghosts (add_house n h (add_special n h c st))
     = ghosts st @ (if h = [] \<and> c = ''G'' then [n] else [])"
  "instructors (add_house n h (add_special n h c st))
     = instructors st @ (if h = [] \<and> c = ''I'' then [n] else [])"
  by (simp_all add: add_house_def add_special_def)

lemma by_house_loop_eq:
  "four_fields recs \<Longrightarrow>
   by_house_loop st recs
   = Inr \<lparr>dumbledores_army = dumbledores_army st @ map rec_full_name (filter (in_bucket 0) recs),
          gryffindor = gryffindor st @ map rec_full_name (filter (in_bucket 1) recs),
          hufflepuff = hufflepuff st @ map rec_full_name (filter (in_bucket 2) recs),
          ravenclaw = ravenclaw st @ map rec_full_name (filter (in_bucket 3) recs),
          slytherin = slytherin st @ map rec_full_name (filter (in_bucket 4) recs),
          ghosts = ghosts st @ map rec_full_name (filter (in_bucket 5) recs),
          instructors = instructors st @ map rec_full_name (filter (in_bucket 6) recs)\<rparr>"
proof (induction recs arbitrary: st)
  case Nil
  show ?case by simp
next
  case (Cons r rs)
  have r: "unpack4 r = Inr (rec_full_name r, rec_house r, rec_adviser r, rec_cohort r)"
    and rs: "four_fields rs"
    using Cons.prems
    by (simp_all add: four_fields_def unpack4_Inr rec_full_name_def rec_house_def
        rec_adviser_def rec_cohort_def)
  show ?case
    by (simp add: r Cons.IH [OF rs] step_rosters in_bucket_simps)
qed

lemma canonical_some_bucket:
  assumes "canonical r"
  shows "in_bucket 0 r \<or> in_bucket 1 r \<or> in_bucket 2 r \<or> in_bucket 3 r \<or> in_bucket 4 r
         \<or> in_bucket 5 r \<or> in_bucket 6 r"
  using assms unfolding canonical_def house_names_def in_bucket_simps by auto

lemma bucket_unique:
  "in_bucket j r \<Longrightarrow> in_bucket k r \<Longrightarrow> j < 7 \<Longrightarrow> k < 7 \<Longrightarrow> j = k"
  unfolding less_7_cases by (elim disjE; simp add: in_bucket_simps)

lemma canonical_one_bucket:
  assumes "canonical r"
  shows "\<exists>!k. k < 7 \<and> in_bucket k r"
proof -
  from canonical_some_bucket [OF assms] obtain j where "j < 7" "in_bucket j r"
    by (elim disjE) (rule that [rotated], assumption, simp)+
  then show ?thesis
    using bucket_unique by blast
qed


lemma canonical_names:
  "list_all canonical recs \<Longrightarrow>
   mset (map rec_full_name (filter (in_bucket 0) recs))
   + mset (map rec_full_name (filter (in_bucket 1) recs))
   + mset (map rec_full_name (filter (in_bucket 2) recs))
   + mset (map rec_full_name (filter (in_bucket 3) recs))
   + mset (map rec_full_name (filter (in_bucket 4) recs))
   + mset (map rec_full_name (filter (in_bucket 5) recs))
   + mset (map rec_full_name (filter (in_bucket 6) recs))
   = mset (map rec_full_name recs)"
proof (induction recs)
  case Nil
  show ?case by simp
next
  case (Cons r rs)
  then have "canonical r" and IH: "mset (map rec_full_name (filter (in_bucket 0) rs))
   + mset (map rec_full_name (filter (in_bucket 1) rs))
   + mset (map rec_full_name (filter (in_bucket 2) rs))
   + mset (map rec_full_name (filter (in_bucket 3) rs))
   + mset (map rec_full_name (filter (in_bucket 4) rs))
   + mset (map rec_full_name (filter (in_bucket 5) rs))
   + mset (map rec_full_name (filter (in_bucket 6) rs))
   = mset (map rec_full_name rs)"
    by simp_all
  from canonical_some_bucket [OF \<open>canonical r\<close>] IH show ?case
    by (elim disjE) (simp_all add: in_bucket_simps)
qed

text \<open>
  Claim C3.  For a file that loads into records of four fields, each with one of the five
  house names or with no house and the cohort \<^verbatim>\<open>"G"\<close> or \<^verbatim>\<open>"I"\<close>, \<^verbatim>\<open>all_names_by_house\<close>
  returns exactly seven lists, in the order Dumbledore's Army, Gryffindor, Hufflepuff,
  Ravenclaw, Slytherin, ghosts, instructors (empty rosters included).  Each list is sorted and
  holds the full names of the records of its roster; every record belongs to exactly one roster,
  and the seven lists together hold the full name of every record exactly once.
\<close>

theorem all_names_by_house_rosters:
  assumes "all_data fs filename = Inr recs" and "four_fields recs" and "list_all canonical recs"
  shows "\<exists>bs. all_names_by_house fs filename = Inr bs
           \<and> length bs = 7
           \<and> (\<forall>k<7. sorted (bs ! k)
                    \<and> mset (bs ! k) = mset (map rec_full_name (filter (in_bucket k) recs)))
           \<and> (\<forall>r\<in>set recs. \<exists>!k. k < 7 \<and> in_bucket k r)
           \<and> mset (concat bs) = mset (map rec_full_name recs)"
proof -
  let ?b = "\<lambda>k. sort (map rec_full_name (filter (in_bucket k) recs))"
  let ?bs = "[?b 0, ?b 1, ?b 2, ?b 3, ?b 4, ?b 5, ?b 6]"
  have res: "all_names_by_house fs filename = Inr ?bs"
    using assms(1) by (simp add: all_names_by_house_def by_house_loop_eq [OF assms(2)] no_rosters_def)
  have each: "\<forall>k<7. sorted (?bs ! k)
                    \<and> mset (?bs ! k) = mset (map rec_full_name (filter (in_bucket k) recs))"
    by (auto simp: less_7_cases)
  have one: "\<forall>r\<in>set recs. \<exists>!k. k < 7 \<and> in_bucket k r"
    using assms(3) canonical_one_bucket by (auto simp: list_all_iff)
  have "mset (concat ?bs) = mset (map rec_full_name recs)"
    using canonical_names [OF assms(3)] by (simp add: add.assoc)
  with res each one show ?thesis
    by (intro exI [of _ ?bs]) simp
qed

theorem all_names_by_house_rosters_witness:
  "all_data hogwarts_fs ''cohort_data.txt'' = Inr hogwarts_records
   \<and> four_fields hogwarts_records
   \<and> list_all canonical hogwarts_records
   \<and> (\<exists>bs. all_names_by_house hogwarts_fs ''cohort_data.txt'' = Inr bs
         \<and> length bs = 7
         \<and> mset (bs ! 5) = mset [''Moaning Myrtle'', ''Nearly Headless Nick'']
         \<and> mset (concat bs) = mset (map rec_full_name hogwarts_records))"
proof -
  have c: "list_all canonical hogwarts_records"
    by code_simp
  have m: "map rec_full_name (filter (in_bucket 5) hogwarts_records)
           = [''Moaning Myrtle'', ''Nearly Headless Nick'']"
    by code_simp
  from all_names_by_house_rosters [OF hogwarts_all_data hogwarts_four_fields c] obtain bs where
    bs: "all_names_by_house hogwarts_fs ''cohort_data.txt'' = Inr bs" "length bs = 7"
      "\<forall>k<7. sorted (bs ! k)
            \<and> mset (bs ! k) = mset (map rec_full_name (filter (in_bucket k) hogwarts_records))"
      "mset (concat bs) = mset (map rec_full_name hogwarts_records)"
    by (elim exE conjE)
  have "(5::nat) < 7" by simp
  with bs(3) have "mset (bs ! 5) = mset (map rec_full_name (filter (in_bucket 5) hogwarts_records))"
    by blast
  then have g: "mset (bs ! 5) = mset [''Moaning Myrtle'', ''Nearly Headless Nick'']"
    unfolding m .
  show ?thesis
    apply (intro conjI)
       apply (rule hogwarts_all_data)
      apply (rule hogwarts_four_fields)
     apply (rule c)
    apply (rule exI [of _ bs])
    apply (intro conjI bs(1) bs(2) g bs(4))
    done
qed

section \<open>Housemates\<close>

lemma housemates_eq:
  assumes "all_data fs filename = Inr recs" and "four_fields recs"
  shows "get_housemates_for fs filename name
         = Inr (rec_full_name `
                  {r \<in> set recs. rec_full_name r \<noteq> name
                     \<and> Some (rec_house r)
                         = map_option rec_house (find (\<lambda>r. rec_full_name r = name) recs)
                     \<and> Some (rec_cohort r)
                         = map_option rec_cohort (find (\<lambda>r. rec_full_name r = name) recs)})"
proof -
  have c: "get_cohort_for fs filename name
           = Inr (map_option rec_cohort (find (\<lambda>r. rec_full_name r = name) recs))"
    using assms by (simp add: get_cohort_for_def cohort_loop_find)
  have h: "get_house_for fs filename name
           = Inr (map_option rec_house (find (\<lambda>r. rec_full_name r = name) recs))"
    using assms by (simp add: get_house_for_def house_loop_find four_fields_two)
  have "set (map (\<lambda>(full_name, _, _, _). full_name)
          (filter (\<lambda>(full_name, house, _, cohort_name).
                     full_name \<noteq> name \<and> Some house = th \<and> Some cohort_name = tc)
             (map (\<lambda>r. (rec_full_name r, rec_house r, rec_adviser r, rec_cohort r)) recs)))
        = rec_full_name ` {r \<in> set recs. rec_full_name r \<noteq> name
                            \<and> Some (rec_house r) = th \<and> Some (rec_cohort r) = tc}"
    for th tc
    by force
  then show ?thesis
    by (simp add: get_housemates_for_def c h assms(1) unpack_each_unpack4 [OF assms(2)])
qed

text \<open>
  Claim C1, as the code has it.  For a file that loads into records of four fields and every
  name, \<^verbatim>\<open>get_housemates_for\<close> returns a set that never contains the name; the set is empty
  when no record has the name; and otherwise it is the set of the other full names whose house
  and cohort fields equal those of the first record with the name.  A ghost or an instructor
  has the house \<^verbatim>\<open>""\<close> and the cohort \<^verbatim>\<open>"G"\<close> or \<^verbatim>\<open>"I"\<close>, which are strings like any other: the
  result is then the set of the other ghosts, or of the other instructors.
\<close>

theorem housemates_exact:
  assumes "all_data fs filename = Inr recs" and "four_fields recs"
  shows "\<exists>S. get_housemates_for fs filename name = Inr S
           \<and> name \<notin> S
           \<and> (list_all (\<lambda>r. rec_full_name r \<noteq> name) recs \<longrightarrow> S = {})
           \<and> (\<forall>t. find (\<lambda>r. rec_full_name r = name) recs = Some t \<longrightarrow>
                  S = rec_full_name ` {r \<in> set recs. rec_full_name r \<noteq> name
                                         \<and> rec_house r = rec_house t
                                         \<and> rec_cohort r = rec_cohort t})"
proof -
  let ?t = "find (\<lambda>r. rec_full_name r = name) recs"
  let ?S = "rec_full_name ` {r \<in> set recs. rec_full_name r \<noteq> name
                \<and> Some (rec_house r) = map_option rec_house ?t
                \<and> Some (rec_cohort r) = map_option rec_cohort ?t}"
  have res: "get_housemates_for fs filename name = Inr ?S"
    by (rule housemates_eq [OF assms])
  have notin: "name \<notin> ?S" by auto
  have none: "?S = {}" if "list_all (\<lambda>r. rec_full_name r \<noteq> name) recs"
  proof -
    have "?t = None" using that by (simp add: find_None_iff list_all_iff)
    then show ?thesis by simp
  qed
  have some: "?S = rec_full_name ` {r \<in> set recs. rec_full_name r \<noteq> name
                                         \<and> rec_house r = rec_house t
                                         \<and> rec_cohort r = rec_cohort t}"
    if "?t = Some t" for t
    using that by simp
  show ?thesis
    using res notin none some by (intro exI [of _ ?S]) blast
qed

theorem housemates_exact_witness:
  "all_data hogwarts_fs ''cohort_data.txt'' = Inr hogwarts_records
   \<and> four_fields hogwarts_records
   \<and> get_housemates_for hogwarts_fs ''cohort_data.txt'' ''Harry Potter'' = Inr {''Ron Weasley''}
   \<and> list_all (\<lambda>r. rec_full_name r \<noteq> ''Balloonicorn'') hogwarts_records
   \<and> get_housemates_for hogwarts_fs ''cohort_data.txt'' ''Balloonicorn'' = Inr {}"
proof -
  have n: "list_all (\<lambda>r. rec_full_name r \<noteq> ''Balloonicorn'') hogwarts_records"
    by code_simp
  have f: "find (\<lambda>r. rec_full_name r = ''Harry Potter'') hogwarts_records
           = Some [''Harry Potter'', ''Gryffindor'', ''McGonagall'', ''Fall 2015'']"
    by code_simp
  have "map rec_full_name (filter (\<lambda>r. rec_full_name r \<noteq> ''Harry Potter''
              \<and> rec_house r = rec_house [''Harry Potter'', ''Gryffindor'', ''McGonagall'', ''Fall 2015'']
              \<and> rec_cohort r = rec_cohort [''Harry Potter'', ''Gryffindor'', ''McGonagall'', ''Fall 2015''])
             hogwarts_records)
        = [''Ron Weasley'']"
    by code_simp
  then have "set (map rec_full_name (filter (\<lambda>r. rec_full_name r \<noteq> ''Harry Potter''
              \<and> rec_house r = rec_house [''Harry Potter'', ''Gryffindor'', ''McGonagall'', ''Fall 2015'']
              \<and> rec_cohort r = rec_cohort [''Harry Potter'', ''Gryffindor'', ''McGonagall'', ''Fall 2015''])
             hogwarts_records))
        = {''Ron Weasley''}"
    by (simp only: list.set)
  then have s: "rec_full_name ` {r \<in> set hogwarts_records. rec_full_name r \<noteq> ''Harry Potter''
              \<and> rec_house r = rec_house [''Harry Potter'', ''Gryffindor'', ''McGonagall'', ''Fall 2015'']
              \<and> rec_cohort r = rec_cohort [''Harry Potter'', ''Gryffindor'', ''McGonagall'', ''Fall 2015'']}
           = {''Ron Weasley''}"
    by (simp only: set_map set_filter)
  from housemates_exact [OF hogwarts_all_data hogwarts_four_fields, of "''Harry Potter''"]
  obtain S where S: "get_housemates_for hogwarts_fs ''cohort_data.txt'' ''Harry Potter'' = Inr S"
    and "\<forall>t. find (\<lambda>r. rec_full_name r = ''Harry Potter'') hogwarts_records = Some t \<longrightarrow>
                  S = rec_full_name ` {r \<in> set hogwarts_records. rec_full_name r \<noteq> ''Harry Potter''
                                         \<and> rec_house r = rec_house t
                                         \<and> rec_cohort r = rec_cohort t}"
    by (elim exE conjE)
  then have "S = {''Ron Weasley''}"
    using f s by simp
  with S have harry:
    "get_housemates_for hogwarts_fs ''cohort_data.txt'' ''Harry Potter'' = Inr {''Ron Weasley''}"
    by simp
  from housemates_exact [OF hogwarts_all_data hogwarts_four_fields, of "''Balloonicorn''"] n
  have nobody: "get_housemates_for hogwarts_fs ''cohort_data.txt'' ''Balloonicorn'' = Inr {}"
    by (elim exE conjE) simp
  show ?thesis
    by (intro conjI hogwarts_all_data hogwarts_four_fields harry n nobody)
qed

text \<open>
  Claim C1, as it is stated, fails: in the example file Moaning Myrtle is a ghost (no house,
  cohort \<^verbatim>\<open>"G"\<close>) and her housemates are not the empty set but the other ghost.
\<close>

theorem housemates_of_ghost:
  "get_house_for hogwarts_fs ''cohort_data.txt'' ''Moaning Myrtle'' = Inr (Some [])
   \<and> get_cohort_for hogwarts_fs ''cohort_data.txt'' ''Moaning Myrtle'' = Inr (Some ''G'')
   \<and> get_housemates_for hogwarts_fs ''cohort_data.txt'' ''Moaning Myrtle''
       = Inr {''Nearly Headless Nick''}
   \<and> get_housemates_for hogwarts_fs ''cohort_data.txt'' ''Moaning Myrtle'' \<noteq> Inr {}"
proof -
  have h: "get_house_for hogwarts_fs ''cohort_data.txt'' ''Moaning Myrtle'' = Inr (Some [])"
    by code_simp
  have c: "get_cohort_for hogwarts_fs ''cohort_data.txt'' ''Moaning Myrtle'' = Inr (Some ''G'')"
    by code_simp
  have m: "get_housemates_for hogwarts_fs ''cohort_data.txt'' ''Moaning Myrtle''
           = Inr {''Nearly Headless Nick''}"
    by code_simp
  show ?thesis using h c m by simp
qed

section \<open>Duplicated last names\<close>

text \<open>
  The loop of \<^verbatim>\<open>find_duped_last_names\<close> adds to \<^verbatim>\<open>dupes\<close> exactly the second fields that occur
  in two or more rows: given a \<^verbatim>\<open>read_cohort_data\<close> that returns the split lines, the function
  would return the set of the last names found on two or more lines, and \<^verbatim>\<open>{"Weasley"}\<close> for
  the file of the two Weasley lines.
\<close>

lemma dupes_step:
  fixes l :: string
  shows "(if l \<in> S then insert l D else D) \<union> {x. 2 \<le> count_list ls x} \<union> (insert l S \<inter> set ls)
         = D \<union> {x. 2 \<le> count_list (l # ls) x} \<union> (S \<inter> set (l # ls))"
    (is "?L = ?R")
proof (rule set_eqI)
  fix x
  show "x \<in> ?L \<longleftrightarrow> x \<in> ?R"
  proof (cases "x = l")
    case True
    have "2 \<le> Suc (count_list ls l) \<longleftrightarrow> l \<in> set ls"
      using count_list_0_iff [of ls l] by arith
    moreover have "2 \<le> count_list ls l \<Longrightarrow> l \<in> set ls"
      using count_list_0_iff [of ls l] by arith
    ultimately show ?thesis
      using True by (cases "l \<in> S") auto
  next
    case False
    then show ?thesis by auto
  qed
qed

lemma dupes_loop_eq:
  "list_all (\<lambda>r. 2 \<le> length r) rows \<Longrightarrow>
   dupes_loop dupes seen_names rows
   = Inr (dupes \<union> {l. 2 \<le> count_list (map (\<lambda>r. r ! 1) rows) l}
                \<union> (seen_names \<inter> set (map (\<lambda>r. r ! 1) rows)))"
proof (induction rows arbitrary: dupes seen_names)
  case Nil
  show ?case by simp
next
  case (Cons r rs)
  have r: "unpack2_rest r = Inr (r ! 0, r ! 1, drop 2 r)" and rs: "list_all (\<lambda>r. 2 \<le> length r) rs"
    using Cons.prems by (simp_all add: unpack2_rest_Inr)
  have m: "map (\<lambda>r. r ! 1) (r # rs) = r ! 1 # map (\<lambda>r. r ! 1) rs"
    by simp
  show ?case
    unfolding dupes_loop.simps r sum.case prod.case Cons.IH [OF rs] m dupes_step ..
qed

lemma find_duped_last_names_with_reader:
  assumes "fs filename = Some lines"
    and "list_all (\<lambda>line. 2 \<le> length (fields line)) lines"
  shows "find_duped_last_names_with (Some read_cohort_data) fs filename
         = Inr {l. 2 \<le> count_list (map (\<lambda>line. fields line ! 1) lines) l}"
proof -
  have "list_all (\<lambda>r. 2 \<le> length r) (split_lines lines)"
    using assms(2) by (simp add: split_lines_def list_all_iff fields_def)
  from dupes_loop_eq [OF this, of "{}" "{}"] show ?thesis
    using assms(1)
    by (simp add: find_duped_last_names_with_def read_cohort_data_def split_lines_def fields_def
        comp_def)
qed

lemma weasley_with_reader:
  "find_duped_last_names_with (Some read_cohort_data) weasley_fs ''cohort_data.txt''
   = Inr {''Weasley''}"
  by code_simp

text \<open>
  Claim C2.  The module binds no \<^verbatim>\<open>read_cohort_data\<close>, so the call in
  \<^verbatim>\<open>find_duped_last_names\<close> raises \<^verbatim>\<open>NameError\<close> before any line is read: for the file of the
  two Weasley lines the function returns no set at all, where the claim and the docstring have
  it return the set of the duplicated last names.
\<close>

theorem find_duped_last_names_unbound:
  "module_loader ''read_cohort_data'' = None
   \<and> find_duped_last_names weasley_fs ''cohort_data.txt'' = Inl NameError"
  by (simp add: find_duped_last_names_def find_duped_last_names_with_def module_loader_def)

end
